theory Spec2Isabelle
  imports Complex_Main
begin

section \<open>Data model\<close>

text \<open>
  A vessel as the application receives it from the tracking service.  The fields are the
  ones the sources read: \<open>mmsi\<close> (the key of the store), the position, the optional
  \<open>course\<close>, \<open>speed\<close> and \<open>ship_type\<close> (read with \<open>??\<close> defaults by the map layer),
  and \<open>last_updated\<close>, a timestamp string set by the server.
\<close>

record vessel =
  mmsi :: int
  latitude :: real
  longitude :: real
  course :: "real option"
  speed :: "real option"
  ship_type :: "int option"
  last_updated :: string

text \<open>
  The store is a JavaScript \<open>Map<number, Vessel>\<close>.  A \<open>Map\<close> keeps its entries in
  insertion order, so it is modelled as the list of its entries.  \<open>map_set\<close> is
  \<open>Map.prototype.set\<close>: an existing key keeps its position and gets the new value, a new
  key is appended.  \<open>new Map(prev)\<close> copies the entries, which is the identity here.
\<close>

type_synonym vessel_map = "(int \<times> vessel) list"

fun map_set :: "vessel_map \<Rightarrow> int \<Rightarrow> vessel \<Rightarrow> vessel_map" where
  "map_set [] k v = [(k, v)]"
| "map_set ((k', v') # m) k v =
     (if k' = k then (k, v) # m else (k', v') # map_set m k v)"

definition map_get :: "vessel_map \<Rightarrow> int \<Rightarrow> vessel option" where
  "map_get m k = map_of m k"

definition map_keys :: "vessel_map \<Rightarrow> int list" where
  "map_keys m = map fst m"

section \<open>The vessel store (VesselContext)\<close>

text \<open>
  Every operation of the provider hands React an updater \<open>prevVessels => newVessels\<close>;
  the functions below are these updaters, with the previous snapshot as last argument.
\<close>

definition addVessel :: "vessel \<Rightarrow> vessel_map \<Rightarrow> vessel_map" where
  "addVessel vessel prevVessels = map_set prevVessels (mmsi vessel) vessel"

definition updateVessel :: "vessel \<Rightarrow> vessel_map \<Rightarrow> vessel_map" where
  "updateVessel vessel prevVessels = map_set prevVessels (mmsi vessel) vessel"

text \<open>\<open>vessels.forEach(vessel => newVessels.set(vessel.mmsi, vessel))\<close> on a copy.\<close>

definition updateMultipleVessels :: "vessel list \<Rightarrow> vessel_map \<Rightarrow> vessel_map" where
  "updateMultipleVessels vessels prevVessels =
     foldl (\<lambda>newVessels vessel. map_set newVessels (mmsi vessel) vessel) prevVessels vessels"

definition STALE_VESSEL_TIMEOUT_MS :: int where
  "STALE_VESSEL_TIMEOUT_MS = 120000"

text \<open>
  \<open>new Date(s).getTime()\<close> is the JavaScript engine's date parser: it yields the epoch
  milliseconds of \<open>s\<close>, or \<open>NaN\<close> when \<open>s\<close> is not a date.  The parser is a parameter of
  the model, of type \<open>date_parser\<close>, with \<open>None\<close> for \<open>NaN\<close>.  \<open>js_gt\<close> is the comparison
  \<open>vesselTime > staleThreshold\<close>, which is false when the left side is \<open>NaN\<close>.
\<close>

type_synonym date_parser = "string \<Rightarrow> int option"

fun js_gt :: "int option \<Rightarrow> int \<Rightarrow> bool" where
  "js_gt None y = False"
| "js_gt (Some x) y = (x > y)"

text \<open>
  The body of \<open>prevVessels.forEach((vessel, mmsi) => ...)\<close> in \<open>removeStaleVessels\<close>,
  run over the entries in order, with \<open>newVessels\<close> as accumulator.
\<close>

fun removeStale_forEach ::
  "date_parser \<Rightarrow> int \<Rightarrow> vessel_map \<Rightarrow> vessel_map \<Rightarrow> vessel_map" where
  "removeStale_forEach getTime staleThreshold [] newVessels = newVessels"
| "removeStale_forEach getTime staleThreshold ((k, vessel) # rest) newVessels =
     removeStale_forEach getTime staleThreshold rest
       (if js_gt (getTime (last_updated vessel)) staleThreshold
        then map_set newVessels k vessel else newVessels)"

text \<open>\<open>now\<close> is the value of \<open>Date.now()\<close> when the sweep is called.\<close>

definition removeStaleVessels :: "date_parser \<Rightarrow> int \<Rightarrow> vessel_map \<Rightarrow> vessel_map" where
  "removeStaleVessels getTime now prevVessels =
     (let staleThreshold = now - STALE_VESSEL_TIMEOUT_MS
      in removeStale_forEach getTime staleThreshold prevVessels [])"

text \<open>A sequence of merges on the store, applied in order from the empty store.\<close>

datatype store_op = Merge vessel | MergeMany "vessel list"

fun apply_store_op :: "vessel_map \<Rightarrow> store_op \<Rightarrow> vessel_map" where
  "apply_store_op m (Merge v) = updateVessel v m"
| "apply_store_op m (MergeMany vs) = updateMultipleVessels vs m"

definition run_store_ops :: "store_op list \<Rightarrow> vessel_map" where
  "run_store_ops ops = foldl apply_store_op [] ops"

text \<open>The records a sequence of merges carries, in the order they are merged.\<close>

fun merged_records :: "store_op list \<Rightarrow> vessel list" where
  "merged_records [] = []"
| "merged_records (Merge v # ops) = v # merged_records ops"
| "merged_records (MergeMany vs # ops) = vs @ merged_records ops"

text \<open>The last record with identifier \<open>k\<close> in a sequence of records.\<close>

definition last_merged :: "int \<Rightarrow> vessel list \<Rightarrow> vessel option" where
  "last_merged k vs = find (\<lambda>v. mmsi v = k) (rev vs)"

text \<open>
  Concrete data for the scenarios: the vessel of the eviction scenario, a vessel whose
  timestamp is not a date, and a date parser that knows the one timestamp the scenarios
  use (\<open>2024-01-01T00:00:10Z\<close> is 1704067210000 ms after the epoch) and rejects
  every other string.
\<close>

definition example_vessel :: vessel where
  "example_vessel =
     \<lparr>mmsi = 100, latitude = 10, longitude = 20, course = None, speed = None,
      ship_type = None, last_updated = ''2024-01-01T00:00:10Z''\<rparr>"

definition malformed_vessel :: vessel where
  "malformed_vessel =
     \<lparr>mmsi = 7, latitude = 0, longitude = 0, course = None, speed = None,
      ship_type = None, last_updated = ''yesterday''\<rparr>"

definition example_getTime :: date_parser where
  "example_getTime s = (if s = ''2024-01-01T00:00:10Z'' then Some 1704067210000 else None)"

section \<open>The geohash utility\<close>

text \<open>
  \<open>ngeohash.encode\<close> is a library function; it is a parameter of the model, of type
  \<open>geohash_encoder\<close>.  Coordinates are JavaScript numbers, IEEE doubles; the model takes
  them as reals.  The two agree on a rectangle that is a single point of the valid domain:
  the one sample is the corner as given, and adding the step 0.045 to it gives a larger
  number in doubles as over the reals.  On a longer range the code accumulates the rounding
  of every addition, and its last sample at the upper edge can differ from the model's.
\<close>

type_synonym geohash_encoder = "real \<Rightarrow> real \<Rightarrow> int \<Rightarrow> string"

definition encodeGeohash :: "geohash_encoder \<Rightarrow> real \<Rightarrow> real \<Rightarrow> int \<Rightarrow> string" where
  "encodeGeohash encode lat lon precision = encode lat lon precision"

definition latStep :: real where
  "latStep = 45 / 1000"

definition lonStep :: real where
  "lonStep = 45 / 1000"

text \<open>\<open>Set.prototype.add\<close> on the insertion-ordered \<open>Set<string>\<close>.\<close>

definition set_add :: "string list \<Rightarrow> string \<Rightarrow> string list" where
  "set_add s x = (if x \<in> set s then s else s @ [x])"

lemma latStep_pos: "0 < latStep" and lonStep_pos: "0 < lonStep"
  by (simp_all add: latStep_def lonStep_def)

lemma step_measure:
  fixes x hi step :: real
  assumes "0 < step" and "x \<le> hi"
  shows "nat (\<lceil>(hi - (x + step)) / step\<rceil> + 1) < nat (\<lceil>(hi - x) / step\<rceil> + 1)"
proof -
  have e: "(hi - (x + step)) / step = (hi - x) / step - 1"
    using assms(1) by (simp add: field_simps)
  have "0 \<le> (hi - x) / step" using assms by simp
  then have "0 \<le> \<lceil>(hi - x) / step\<rceil>" by linarith
  then show ?thesis unfolding e by simp
qed

text \<open>The inner loop \<open>for (let lon = minLon; lon <= maxLon; lon += lonStep)\<close>.\<close>

function lon_loop ::
  "geohash_encoder \<Rightarrow> real \<Rightarrow> real \<Rightarrow> real \<Rightarrow> int \<Rightarrow> string list \<Rightarrow> string list" where
  "lon_loop encode lat lon maxLon precision geohashes =
     (if lon \<le> maxLon
      then lon_loop encode lat (lon + lonStep) maxLon precision
             (if lat \<ge> - 90 \<and> lat \<le> 90 \<and> lon \<ge> - 180 \<and> lon \<le> 180
              then set_add geohashes (encodeGeohash encode lat lon precision)
              else geohashes)
      else geohashes)"
  by pat_completeness auto
termination
  by (relation "measure (\<lambda>(encode, lat, lon, maxLon, precision, geohashes).
        nat (\<lceil>(maxLon - lon) / lonStep\<rceil> + 1))")
     (simp_all only: wf_measure in_measure prod.case step_measure [OF lonStep_pos])

text \<open>The outer loop \<open>for (let lat = minLat; lat <= maxLat; lat += latStep)\<close>.\<close>

function lat_loop ::
  "geohash_encoder \<Rightarrow> real \<Rightarrow> real \<Rightarrow> real \<Rightarrow> real \<Rightarrow> int \<Rightarrow> string list \<Rightarrow> string list" where
  "lat_loop encode lat minLon maxLon maxLat precision geohashes =
     (if lat \<le> maxLat
      then lat_loop encode (lat + latStep) minLon maxLon maxLat precision
             (lon_loop encode lat minLon maxLon precision geohashes)
      else geohashes)"
  by pat_completeness auto
termination
  by (relation "measure (\<lambda>(encode, lat, minLon, maxLon, maxLat, precision, geohashes).
        nat (\<lceil>(maxLat - lat) / latStep\<rceil> + 1))")
     (simp_all only: wf_measure in_measure prod.case step_measure [OF latStep_pos])

declare lon_loop.simps [simp del] lat_loop.simps [simp del]

text \<open>\<open>Array.from(geohashes)\<close> is the list of the set's elements in insertion order.\<close>

definition calculateGeohashes ::
  "geohash_encoder \<Rightarrow> real \<Rightarrow> real \<Rightarrow> real \<Rightarrow> real \<Rightarrow> int \<Rightarrow> string list" where
  "calculateGeohashes encode minLon minLat maxLon maxLat precision =
     lat_loop encode minLat minLon maxLon maxLat precision []"

text \<open>An encoder for the examples: it names the quadrant of the point.\<close>

definition example_encode :: geohash_encoder where
  "example_encode lat lon precision =
     (if lat < 0 then ''s'' else ''n'') @ (if lon < 0 then ''w'' else ''e'')"

section \<open>The map component (VesselMap)\<close>

text \<open>
  The component holds React state (\<open>zoom\<close>, \<open>bbox\<close>, \<open>isLoading\<close>, \<open>error\<close>), reads
  the store and the cursor \<open>lastServerTime\<close> from the context, and keeps the handle of
  the polling interval in \<open>pollingIntervalRef\<close>.  All of it is one record here.  Three
  fields are added to follow what the code does outside its own state:
  \<open>intervals_created\<close> counts the calls of \<open>setInterval\<close>, \<open>live_intervals\<close> lists the
  handles that \<open>setInterval\<close> returned and \<open>clearInterval\<close> has not cleared yet, and
  \<open>in_flight\<close> lists the requests handed to \<open>VesselApiService.fetchVessels\<close> whose
  promise is still pending.  A handle is a timer object or a positive id in the runtime,
  truthy either way; the model numbers the handles 0, 1, 2, ... only to tell them apart.
\<close>

record Bbox =
  minLon :: real
  minLat :: real
  maxLon :: real
  maxLat :: real

record fetch_request =
  req_bbox :: Bbox
  req_zoom :: int
  req_since :: "string option"

text \<open>The resolved value of the API call: \<open>response.vessels\<close>, \<open>response.server_time\<close>, \<open>response.is_delta\<close>.\<close>

record fetch_response =
  response_vessels :: "vessel list"
  server_time :: string
  is_delta :: bool

record view_state =
  vessels :: vessel_map
  lastServerTime :: "string option"
  zoom :: real
  bbox :: "Bbox option"
  isLoading :: bool
  error :: "string option"
  pollingIntervalRef :: "nat option"
  intervals_created :: nat
  live_intervals :: "nat list"
  in_flight :: "fetch_request list"

definition MIN_ZOOM_LEVEL :: real where
  "MIN_ZOOM_LEVEL = 12"

definition DEFAULT_MAP_ZOOM :: real where
  "DEFAULT_MAP_ZOOM = 10"

text \<open>The state after the first render: \<open>useState\<close> initial values, nothing pending.\<close>

definition initial_state :: view_state where
  "initial_state =
     \<lparr>vessels = [], lastServerTime = None, zoom = DEFAULT_MAP_ZOOM, bbox = None,
      isLoading = False, error = None, pollingIntervalRef = None,
      intervals_created = 0, live_intervals = [], in_flight = []\<rparr>"

definition clearAll :: "view_state \<Rightarrow> view_state" where
  "clearAll st = st\<lparr>vessels := [], lastServerTime := None\<rparr>"

text \<open>\<open>Math.round\<close> rounds to the nearest integer, halves upwards.\<close>

definition math_round :: "real \<Rightarrow> int" where
  "math_round x = \<lfloor>x + 1 / 2\<rfloor>"

text \<open>\<open>lastServerTime || undefined\<close>: \<open>null\<close> and the empty string both give \<open>undefined\<close>.\<close>

definition since_argument :: "string option \<Rightarrow> string option" where
  "since_argument t = (case t of None \<Rightarrow> None | Some s \<Rightarrow> if s = [] then None else Some s)"

text \<open>
  \<open>fetchVessels\<close> up to its \<open>await\<close>: the guard, the two state updates and the call of
  the API, which leaves a pending request.  The callback reads \<open>bbox\<close>, \<open>zoom\<close> and
  \<open>lastServerTime\<close> from its closure; it is re-created whenever one of them changes and
  the effect that calls it runs again with the new one, so they are the current values.
\<close>

definition fetchVessels_call :: "view_state \<Rightarrow> view_state" where
  "fetchVessels_call st =
     (case bbox st of
        None \<Rightarrow> st
      | Some b \<Rightarrow>
          if zoom st < MIN_ZOOM_LEVEL then st
          else st\<lparr>isLoading := True, error := None,
                  in_flight := in_flight st @
                    [\<lparr>req_bbox = b, req_zoom = math_round (zoom st),
                      req_since = since_argument (lastServerTime st)\<rparr>]\<rparr>)"

text \<open>
  \<open>fetchVessels\<close> after its \<open>await\<close>, when the promise resolved: the \<open>try\<close> block's
  remainder and the \<open>finally\<close> block.  It calls only the context's
  \<open>updateMultipleVessels\<close> and the state setters, and reads nothing but the response.
\<close>

definition fetchVessels_resolved :: "fetch_response \<Rightarrow> view_state \<Rightarrow> view_state" where
  "fetchVessels_resolved response st =
     (let st1 = (if length (response_vessels response) > 0
                 then st\<lparr>vessels := updateMultipleVessels (response_vessels response) (vessels st)\<rparr>
                 else st);
          st2 = st1\<lparr>lastServerTime := Some (server_time response)\<rparr>
      in st2\<lparr>isLoading := False\<rparr>)"

text \<open>\<open>fetchVessels\<close> after its \<open>await\<close>, when the promise rejected: \<open>catch\<close> and \<open>finally\<close>.\<close>

definition fetchVessels_rejected :: "view_state \<Rightarrow> view_state" where
  "fetchVessels_rejected st = st\<lparr>error := Some ''Failed to fetch vessels'', isLoading := False\<rparr>"

text \<open>
  \<open>handleRegionDidChange\<close>.  Its arguments are what the map view answers:
  \<open>getVisibleBounds()\<close>, a pair of corners \<open>[lon, lat]\<close>, and \<open>getZoom()\<close>; \<open>None\<close> is
  \<open>undefined\<close>.  \<open>!currentZoom\<close> also holds for the zoom 0.  The result is \<open>None\<close> when
  the handler returns before it sets any state.
\<close>

type_synonym visible_bounds = "(real \<times> real) \<times> (real \<times> real)"

definition handleRegionDidChange ::
  "visible_bounds option \<Rightarrow> real option \<Rightarrow> view_state \<Rightarrow> view_state option" where
  "handleRegionDidChange bounds currentZoom st =
     (case bounds of
        None \<Rightarrow> None
      | Some b \<Rightarrow>
          (case currentZoom of
             None \<Rightarrow> None
           | Some z \<Rightarrow>
               if z = 0 then None
               else
                 let st1 = st\<lparr>zoom := z\<rparr>;
                     newBbox = \<lparr>minLon = fst (fst b), minLat = snd (fst b),
                                maxLon = fst (snd b), maxLat = snd (snd b)\<rparr>;
                     st2 = st1\<lparr>bbox := Some newBbox\<rparr>
                 in Some (if z < MIN_ZOOM_LEVEL then clearAll st2 else st2)))"

text \<open>
  \<open>if (pollingIntervalRef.current) { clearInterval(pollingIntervalRef.current);
  pollingIntervalRef.current = null; }\<close>, which the code has twice: as the function the
  polling effect returns, and in the effect's branch for a zoomed-out or unknown viewport.
\<close>

definition polling_cleanup :: "view_state \<Rightarrow> view_state" where
  "polling_cleanup st =
     (case pollingIntervalRef st of
        None \<Rightarrow> st
      | Some h \<Rightarrow>
          st\<lparr>live_intervals := removeAll h (live_intervals st), pollingIntervalRef := None\<rparr>)"

text \<open>
  The body of the polling effect: stop when zoomed out or without a viewport, otherwise
  fetch at once and start a new interval, whose handle goes into the ref.
\<close>

definition polling_effect :: "view_state \<Rightarrow> view_state" where
  "polling_effect st =
     (if zoom st < MIN_ZOOM_LEVEL \<or> bbox st = None
      then polling_cleanup st
      else
        let st1 = fetchVessels_call st;
            handle = intervals_created st1
        in st1\<lparr>pollingIntervalRef := Some handle,
                live_intervals := live_intervals st1 @ [handle],
                intervals_created := Suc (intervals_created st1)\<rparr>)"

text \<open>
  React runs the effect again, after the cleanup of its last run, when one of its
  dependencies \<open>[bbox, zoom, fetchVessels, removeStaleVessels]\<close> changed;
  \<open>fetchVessels\<close> changes with \<open>bbox\<close>, \<open>zoom\<close> and \<open>lastServerTime\<close>.
\<close>

definition rerun_polling_effect :: "view_state \<Rightarrow> view_state" where
  "rerun_polling_effect st = polling_effect (polling_cleanup st)"

text \<open>The callback of the interval: \<open>fetchVessels(); removeStaleVessels();\<close>.\<close>

definition interval_callback :: "date_parser \<Rightarrow> int \<Rightarrow> view_state \<Rightarrow> view_state" where
  "interval_callback getTime now st =
     (let st1 = fetchVessels_call st
      in st1\<lparr>vessels := removeStaleVessels getTime now (vessels st1)\<rparr>)"

definition remove_nth :: "nat \<Rightarrow> 'a list \<Rightarrow> 'a list" where
  "remove_nth i xs = take i xs @ drop (Suc i) xs"

text \<open>
  What happens to the component, one event at a time, on the single JavaScript thread:
  the map reports a region change, the interval fires (at time \<open>now\<close>), or the
  \<open>i\<close>-th pending request resolves or rejects.  A step is the handler, the render of
  the state it set, and the effect when a dependency changed.  In \<open>step\<close> the updates of
  one handler are rendered together, as React does when it batches them; the region
  change without batching is \<open>region_change_unbatched\<close> below.  \<open>setBbox\<close> always gets a
  new object, so a region change that sets state always runs the effect again.  The
  interval fires only while one is live, and a request that is not pending does not
  complete: such events leave the state as it is.
\<close>

datatype event =
    RegionDidChange "visible_bounds option" "real option"
  | IntervalTick int
  | FetchResolved nat fetch_response
  | FetchRejected nat

fun step :: "date_parser \<Rightarrow> view_state \<Rightarrow> event \<Rightarrow> view_state" where
  "step getTime st (RegionDidChange bounds currentZoom) =
     (case handleRegionDidChange bounds currentZoom st of
        None \<Rightarrow> st
      | Some st' \<Rightarrow> rerun_polling_effect st')"
| "step getTime st (IntervalTick now) =
     (if live_intervals st = [] then st else interval_callback getTime now st)"
| "step getTime st (FetchResolved i response) =
     (if i < length (in_flight st)
      then
        let st' = fetchVessels_resolved response (st\<lparr>in_flight := remove_nth i (in_flight st)\<rparr>)
        in if lastServerTime st' = lastServerTime st then st' else rerun_polling_effect st'
      else st)"
| "step getTime st (FetchRejected i) =
     (if i < length (in_flight st)
      then fetchVessels_rejected (st\<lparr>in_flight := remove_nth i (in_flight st)\<rparr>)
      else st)"

definition run :: "date_parser \<Rightarrow> view_state \<Rightarrow> event list \<Rightarrow> view_state" where
  "run getTime st events = foldl (step getTime) st events"

text \<open>
  The region change when React does not batch: \<open>handleRegionDidChange\<close> calls its
  setters after two \<open>await\<close>s, outside any React event, and on a root without automatic
  batching each setter is rendered on its own.  The effect then runs again after every
  setter that changed one of its dependencies: after \<open>setZoom\<close> when the zoom differs
  (still with the old \<open>bbox\<close>), after \<open>setBbox\<close> always, and after the
  \<open>setLastServerTime(null)\<close> of \<open>clearAll\<close> when there was a cursor.
\<close>

definition region_change_unbatched ::
  "visible_bounds option \<Rightarrow> real option \<Rightarrow> view_state \<Rightarrow> view_state" where
  "region_change_unbatched bounds currentZoom st =
     (case bounds of
        None \<Rightarrow> st
      | Some b \<Rightarrow>
          (case currentZoom of
             None \<Rightarrow> st
           | Some z \<Rightarrow>
               if z = 0 then st
               else
                 let st1 = st\<lparr>zoom := z\<rparr>;
                     st2 = (if zoom st1 = zoom st then st1 else rerun_polling_effect st1);
                     newBbox = \<lparr>minLon = fst (fst b), minLat = snd (fst b),
                                maxLon = fst (snd b), maxLat = snd (snd b)\<rparr>;
                     st3 = rerun_polling_effect (st2\<lparr>bbox := Some newBbox\<rparr>)
                 in if z < MIN_ZOOM_LEVEL
                    then
                      let st4 = st3\<lparr>vessels := []\<rparr>;
                          st5 = st4\<lparr>lastServerTime := None\<rparr>
                      in if lastServerTime st5 = lastServerTime st4 then st5
                         else rerun_polling_effect st5
                    else st3))"

text \<open>
  Data for the scenarios: two viewports, the request the component sends for the first
  one at zoom 13 with no cursor yet, and a response that carries the example vessel.
\<close>

definition viewport_V1 :: visible_bounds where
  "viewport_V1 = ((- 122.5, 37.7), (- 122.3, 37.8))"

definition viewport_V2 :: visible_bounds where
  "viewport_V2 = ((- 123, 37), (- 122, 38))"

definition request_V1 :: fetch_request where
  "request_V1 =
     \<lparr>req_bbox = \<lparr>minLon = - 122.5, minLat = 37.7, maxLon = - 122.3, maxLat = 37.8\<rparr>,
      req_zoom = 13, req_since = None\<rparr>"


definition empty_response :: fetch_response where
  "empty_response =
     \<lparr>response_vessels = [], server_time = ''2024-01-01T00:00:30Z'', is_delta = True\<rparr>"

text \<open>
  The ref and the runtime agree: no interval is live when the ref is empty, and otherwise
  the one live interval is the one in the ref, returned by an earlier \<open>setInterval\<close>.
\<close>

definition timer_ok :: "view_state \<Rightarrow> bool" where
  "timer_ok st =
     (case pollingIntervalRef st of
        None \<Rightarrow> live_intervals st = []
      | Some h \<Rightarrow> live_intervals st = [h] \<and> h < intervals_created st)"

text \<open>
  What a restart of the polling for a new viewport is, between the state \<open>st\<close> before a
  region change, in which the interval \<open>h\<close> was running, and the state \<open>st'\<close> after it:
  the new bounding box and zoom are set, the store and the cursor are those of \<open>st\<close>,
  the interval \<open>h\<close> is no longer live, the one live interval is in the ref and was
  created during the change, every request that was pending still is, and the last
  request sent is the one for the new bounding box with the cursor of \<open>st\<close>.
\<close>

definition polling_restarted ::
  "view_state \<Rightarrow> nat \<Rightarrow> Bbox \<Rightarrow> real \<Rightarrow> view_state \<Rightarrow> bool" where
  "polling_restarted st h newBbox z st' =
     (bbox st' = Some newBbox \<and> zoom st' = z \<and>
      vessels st' = vessels st \<and> lastServerTime st' = lastServerTime st \<and>
      h \<notin> set (live_intervals st') \<and>
      intervals_created st < intervals_created st' \<and>
      pollingIntervalRef st' = Some (intervals_created st' - 1) \<and>
      live_intervals st' = [intervals_created st' - 1] \<and>
      length (in_flight st) < length (in_flight st') \<and>
      take (length (in_flight st)) (in_flight st') = in_flight st \<and>
      last (in_flight st') =
        \<lparr>req_bbox = newBbox, req_zoom = math_round z,
         req_since = since_argument (lastServerTime st)\<rparr>)"

section \<open>Properties of the store\<close>

lemma map_of_map_set: "map_of (map_set m k v) = (map_of m)(k \<mapsto> v)"
  by (induction m) auto

lemma keys_map_set: "fst ` set (map_set m k v) = insert k (fst ` set m)"
proof (induction m)
  case Nil
  show ?case by simp
next
  case (Cons e m)
  obtain k' v' where e: "e = (k', v')" by (cases e)
  show ?case
  proof (cases "k' = k")
    case True
    then show ?thesis by (simp add: e)
  next
    case False
    then show ?thesis using Cons.IH by (simp add: e insert_commute)
  qed
qed

lemma distinct_map_set: "distinct (map fst m) \<Longrightarrow> distinct (map fst (map_set m k v))"
proof (induction m)
  case Nil
  show ?case by simp
next
  case (Cons e m)
  obtain k' v' where e: "e = (k', v')" by (cases e)
  from Cons.prems have d: "distinct (map fst m)" and n: "k' \<notin> fst ` set m"
    by (simp_all add: e)
  show ?case
  proof (cases "k' = k")
    case True
    then show ?thesis using d n by (simp add: e)
  next
    case False
    then show ?thesis using Cons.IH [OF d] n by (simp add: e keys_map_set)
  qed
qed

lemma set_map_set_subset: "set (map_set m k v) \<subseteq> insert (k, v) (set m)"
  by (induction m) (auto split: if_splits)

lemma find_snoc:
  "find P (xs @ [x]) = (case find P xs of Some y \<Rightarrow> Some y | None \<Rightarrow> if P x then Some x else None)"
  by (induction xs) auto

lemma map_of_updateMultipleVessels:
  "map_of (updateMultipleVessels vs m) k =
     (case last_merged k vs of Some w \<Rightarrow> Some w | None \<Rightarrow> map_of m k)"
  unfolding updateMultipleVessels_def last_merged_def
  by (induction vs arbitrary: m) (auto simp: find_snoc map_of_map_set split: option.splits)

lemma distinct_updateMultipleVessels:
  "distinct (map fst m) \<Longrightarrow> distinct (map fst (updateMultipleVessels vs m))"
  unfolding updateMultipleVessels_def
  by (induction vs arbitrary: m) (auto simp: distinct_map_set)

lemma last_merged_append:
  "last_merged k (xs @ ys) =
     (case last_merged k ys of Some w \<Rightarrow> Some w | None \<Rightarrow> last_merged k xs)"
  unfolding last_merged_def
  by (induction ys rule: rev_induct) (auto simp: find_snoc split: option.splits)

lemma map_of_apply_store_op:
  "map_of (apply_store_op m x) k =
     (case last_merged k (merged_records [x]) of Some w \<Rightarrow> Some w | None \<Rightarrow> map_of m k)"
proof (cases x)
  case (Merge v)
  then show ?thesis
    by (simp add: updateVessel_def map_of_map_set last_merged_def)
next
  case (MergeMany vs)
  then show ?thesis
    by (simp add: map_of_updateMultipleVessels)
qed

lemma distinct_apply_store_op:
  "distinct (map fst m) \<Longrightarrow> distinct (map fst (apply_store_op m x))"
  by (cases x) (simp_all add: updateVessel_def distinct_map_set distinct_updateMultipleVessels)

lemma merged_records_Cons:
  "merged_records (x # ops) = merged_records [x] @ merged_records ops"
  by (cases x) simp_all

lemma map_of_foldl_store_ops:
  "map_of (foldl apply_store_op m ops) k =
     (case last_merged k (merged_records ops) of Some w \<Rightarrow> Some w | None \<Rightarrow> map_of m k)"
proof (induction ops arbitrary: m)
  case Nil
  show ?case by (simp add: last_merged_def)
next
  case (Cons x ops)
  have "map_of (foldl apply_store_op m (x # ops)) k =
          (case last_merged k (merged_records ops) of Some w \<Rightarrow> Some w
           | None \<Rightarrow> map_of (apply_store_op m x) k)"
    using Cons.IH [of "apply_store_op m x"] by simp
  also have "\<dots> =
          (case last_merged k (merged_records (x # ops)) of Some w \<Rightarrow> Some w
           | None \<Rightarrow> map_of m k)"
    by (subst merged_records_Cons)
       (simp add: last_merged_append map_of_apply_store_op split: option.splits)
  finally show ?case .
qed

lemma distinct_foldl_store_ops:
  "distinct (map fst m) \<Longrightarrow> distinct (map fst (foldl apply_store_op m ops))"
  by (induction ops arbitrary: m) (simp_all add: distinct_apply_store_op)

text \<open>
  Claim C2.  Whatever sequence of \<open>updateVessel\<close> and \<open>updateMultipleVessels\<close>
  calls is applied to the empty store, the resulting map has no identifier twice, and
  looking an identifier up gives the last record merged under it (none when no record
  carried it).  Timestamps play no part: the order of the merges decides.
\<close>

theorem merge_replace_by_key:
  "distinct (map_keys (run_store_ops ops)) \<and>
   map_get (run_store_ops ops) k = last_merged k (merged_records ops)"
proof
  show "distinct (map_keys (run_store_ops ops))"
    unfolding map_keys_def run_store_ops_def
    by (rule distinct_foldl_store_ops) simp
  show "map_get (run_store_ops ops) k = last_merged k (merged_records ops)"
    unfolding map_get_def run_store_ops_def
    by (simp add: map_of_foldl_store_ops split: option.splits)
qed

text \<open>
  Claim C10.  \<open>updateMultipleVessels\<close> on the empty list of vessels returns a snapshot
  with exactly the entries of the previous one.
\<close>

theorem updateMultipleVessels_empty: "updateMultipleVessels [] prevVessels = prevVessels"
  by (simp add: updateMultipleVessels_def)

subsection \<open>The staleness sweep\<close>

lemma map_set_new_key: "k \<notin> fst ` set m \<Longrightarrow> map_set m k v = m @ [(k, v)]"
  by (induction m) auto

lemma js_gt_threshold:
  "js_gt x (now - timeout) = (case x of None \<Rightarrow> False | Some t \<Rightarrow> now - t < timeout)"
  by (cases x) auto

lemma js_gt_mono: "js_gt x thr2 \<Longrightarrow> thr1 \<le> thr2 \<Longrightarrow> js_gt x thr1"
  by (cases x) auto

lemma removeStale_forEach_filter:
  "distinct (map fst (acc @ xs)) \<Longrightarrow>
   removeStale_forEach getTime thr xs acc =
     acc @ filter (\<lambda>(k, v). js_gt (getTime (last_updated v)) thr) xs"
proof (induction xs arbitrary: acc)
  case Nil
  show ?case by simp
next
  case (Cons e xs)
  obtain k v where e: "e = (k, v)" by (cases e)
  show ?case
  proof (cases "js_gt (getTime (last_updated v)) thr")
    case True
    from Cons.prems have new: "k \<notin> fst ` set acc" and
      d: "distinct (map fst ((acc @ [(k, v)]) @ xs))"
      by (auto simp: e)
    show ?thesis
      using True Cons.IH [OF d] by (simp add: e map_set_new_key [OF new])
  next
    case False
    from Cons.prems have d: "distinct (map fst (acc @ xs))"
      by (auto simp: e)
    show ?thesis
      using False Cons.IH [OF d] by (simp add: e)
  qed
qed

lemma removeStale_forEach_keys:
  "fst ` set (removeStale_forEach getTime thr xs acc) =
     fst ` set acc \<union> fst ` {e \<in> set xs. js_gt (getTime (last_updated (snd e))) thr}"
proof (induction xs arbitrary: acc)
  case Nil
  show ?case by simp
next
  case (Cons e xs)
  obtain k v where e: "e = (k, v)" by (cases e)
  show ?case
  proof (cases "js_gt (getTime (last_updated v)) thr")
    case True
    have "{e' \<in> set ((k, v) # xs). js_gt (getTime (last_updated (snd e'))) thr} =
            insert (k, v) {e' \<in> set xs. js_gt (getTime (last_updated (snd e'))) thr}"
      using True by auto
    then show ?thesis
      using True Cons.IH [of "map_set acc k v"] by (simp add: e keys_map_set)
  next
    case False
    have "{e' \<in> set ((k, v) # xs). js_gt (getTime (last_updated (snd e'))) thr} =
            {e' \<in> set xs. js_gt (getTime (last_updated (snd e'))) thr}"
      using False by auto
    then show ?thesis
      using False Cons.IH [of acc] by (simp add: e)
  qed
qed

lemma removeStale_forEach_entries:
  "set (removeStale_forEach getTime thr xs acc) \<subseteq>
     set acc \<union> {e \<in> set xs. js_gt (getTime (last_updated (snd e))) thr}"
proof (induction xs arbitrary: acc)
  case Nil
  show ?case by simp
next
  case (Cons e xs)
  obtain k v where e: "e = (k, v)" by (cases e)
  show ?case
  proof (cases "js_gt (getTime (last_updated v)) thr")
    case True
    then show ?thesis
      using Cons.IH [of "map_set acc k v"] set_map_set_subset [of acc k v]
      by (auto simp: e)
  next
    case False
    then show ?thesis
      using Cons.IH [of acc] by (auto simp: e)
  qed
qed

text \<open>
  Claim C3, as the code has it.  The sweep keeps a vessel when
  \<open>vesselTime > now - STALE_VESSEL_TIMEOUT_MS\<close>, a strict comparison: the snapshot after
  the sweep holds, in their order, exactly the entries whose timestamp parses to a time
  \<open>t\<close> with \<open>now - t < STALE_VESSEL_TIMEOUT_MS\<close>.  The timeout is the configuration
  constant, 120000 ms, not an argument.
\<close>

theorem removeStaleVessels_strict:
  "distinct (map_keys prevVessels) \<Longrightarrow>
   removeStaleVessels getTime now prevVessels =
     filter (\<lambda>(k, v). case getTime (last_updated v) of
                         None \<Rightarrow> False
                       | Some t \<Rightarrow> now - t < STALE_VESSEL_TIMEOUT_MS) prevVessels"
  unfolding removeStaleVessels_def Let_def map_keys_def
  by (subst removeStale_forEach_filter) (simp_all add: js_gt_threshold)

text \<open>
  On the store that holds the one vessel of the specification's scenario, last updated at
  00:00:10: the sweep at 00:02:00 (110 s later) keeps it, the sweep at 00:02:15
  (125 s later) drops it.
\<close>

theorem removeStaleVessels_strict_witness:
  "distinct (map_keys (updateVessel example_vessel [])) \<and>
   removeStaleVessels example_getTime 1704067320000 (updateVessel example_vessel []) =
     [(100, example_vessel)] \<and>
   removeStaleVessels example_getTime 1704067335000 (updateVessel example_vessel []) = []"
  using removeStaleVessels_strict [of "updateVessel example_vessel []" example_getTime 1704067320000]
        removeStaleVessels_strict [of "updateVessel example_vessel []" example_getTime 1704067335000]
  by (simp add: updateVessel_def map_keys_def example_vessel_def example_getTime_def
        STALE_VESSEL_TIMEOUT_MS_def)

text \<open>
  Claim C3 as it is written fails at the boundary: at 00:02:10 the vessel's age is exactly
  the timeout, 120000 ms, so \<open>now - last_updated \<le> timeout\<close> holds, and the sweep evicts
  the vessel all the same.
\<close>

theorem removeStaleVessels_boundary_counterexample:
  "example_getTime (last_updated example_vessel) = Some 1704067210000 \<and>
   1704067330000 - 1704067210000 \<le> STALE_VESSEL_TIMEOUT_MS \<and>
   map_get (removeStaleVessels example_getTime 1704067330000 (updateVessel example_vessel []))
     100 = None"
  by (simp add: removeStaleVessels_def updateVessel_def map_get_def example_vessel_def
        example_getTime_def STALE_VESSEL_TIMEOUT_MS_def)

text \<open>
  The sweep times the scenario itself names, 00:02:05 and 00:01:50, are 115 s and 100 s
  after 00:00:10, both below the timeout: the vessel is kept at both.
\<close>

lemma scenario_sweep_times:
  "removeStaleVessels example_getTime 1704067325000 (updateVessel example_vessel []) =
     [(100, example_vessel)] \<and>
   removeStaleVessels example_getTime 1704067310000 (updateVessel example_vessel []) =
     [(100, example_vessel)]"
  by (simp add: removeStaleVessels_def updateVessel_def example_vessel_def
        example_getTime_def STALE_VESSEL_TIMEOUT_MS_def)

text \<open>
  Claim C7.  A vessel whose \<open>last_updated\<close> does not parse (\<open>getTime\<close> is \<open>NaN\<close>) is in
  no snapshot that a sweep produces, whatever the sweep time.
\<close>

theorem removeStaleVessels_drops_unparsable:
  "getTime (last_updated v) = None \<Longrightarrow>
   (k, v) \<notin> set (removeStaleVessels getTime now prevVessels)"
  unfolding removeStaleVessels_def Let_def
  using removeStale_forEach_entries [of getTime "now - STALE_VESSEL_TIMEOUT_MS" prevVessels "[]"]
  by auto

theorem removeStaleVessels_drops_unparsable_witness:
  "example_getTime (last_updated malformed_vessel) = None \<and>
   (7, malformed_vessel) \<in> set (updateVessel malformed_vessel []) \<and>
   (7, malformed_vessel) \<notin>
     set (removeStaleVessels example_getTime 0 (updateVessel malformed_vessel []))"
proof -
  have h: "example_getTime (last_updated malformed_vessel) = None"
    by (simp add: example_getTime_def malformed_vessel_def)
  show ?thesis
    using h removeStaleVessels_drops_unparsable
              [of example_getTime malformed_vessel 7 0 "updateVessel malformed_vessel []"]
    by (simp add: updateVessel_def malformed_vessel_def)
qed

text \<open>
  Claim C8.  With the store and its timestamps fixed, a later sweep keeps no identifier
  that an earlier sweep drops.
\<close>

theorem removeStaleVessels_monotone:
  "t1 < t2 \<Longrightarrow>
   set (map_keys (removeStaleVessels getTime t2 S)) \<subseteq>
   set (map_keys (removeStaleVessels getTime t1 S))"
  unfolding removeStaleVessels_def Let_def map_keys_def set_map removeStale_forEach_keys
  using js_gt_mono [of _ "t2 - STALE_VESSEL_TIMEOUT_MS" "t1 - STALE_VESSEL_TIMEOUT_MS"]
  by auto

theorem removeStaleVessels_monotone_witness:
  "(1704067320000 :: int) < 1704067335000 \<and>
   set (map_keys (removeStaleVessels example_getTime 1704067335000 [(100, example_vessel)])) \<subseteq>
   set (map_keys (removeStaleVessels example_getTime 1704067320000 [(100, example_vessel)])) \<and>
   map_keys (removeStaleVessels example_getTime 1704067320000 [(100, example_vessel)]) = [100]"
proof -
  have h: "(1704067320000 :: int) < 1704067335000" by simp
  have k: "map_keys (removeStaleVessels example_getTime 1704067320000 [(100, example_vessel)]) = [100]"
    by (simp add: removeStaleVessels_def map_keys_def example_vessel_def example_getTime_def
          STALE_VESSEL_TIMEOUT_MS_def)
  show ?thesis
    using h k removeStaleVessels_monotone [OF h, of example_getTime "[(100, example_vessel)]"]
    by simp
qed

section \<open>Properties of the geohash utility\<close>

lemma lon_loop_point:
  "- 90 \<le> lat \<Longrightarrow> lat \<le> 90 \<Longrightarrow> - 180 \<le> lon \<Longrightarrow> lon \<le> 180 \<Longrightarrow>
   lon_loop encode lat lon lon precision geohashes =
     set_add geohashes (encodeGeohash encode lat lon precision)"
  by (subst lon_loop.simps, subst lon_loop.simps) (simp add: lonStep_def)

lemma lat_loop_point:
  "lat_loop encode lat lon0 lon1 lat precision geohashes =
     lon_loop encode lat lon0 lon1 precision geohashes"
  by (subst lat_loop.simps, subst lat_loop.simps) (simp add: latStep_def)

text \<open>
  Claim C9.  \<open>encodeGeohash\<close> is the library's encoder applied to its three arguments and
  nothing else, and for a point of the valid domain \<open>calculateGeohashes\<close> on the rectangle
  that is this one point returns the one geohash of the point.
\<close>

theorem calculateGeohashes_point:
  "- 90 \<le> lat \<and> lat \<le> 90 \<and> - 180 \<le> lon \<and> lon \<le> 180 \<Longrightarrow>
   encodeGeohash encode lat lon precision = encode lat lon precision \<and>
   calculateGeohashes encode lon lat lon lat precision = [encodeGeohash encode lat lon precision]"
  by (simp add: calculateGeohashes_def lat_loop_point lon_loop_point set_add_def
        encodeGeohash_def)

theorem calculateGeohashes_point_witness:
  "(- 90 \<le> (37.7749 :: real) \<and> (37.7749 :: real) \<le> 90 \<and>
    - 180 \<le> (- 122.4194 :: real) \<and> (- 122.4194 :: real) \<le> 180) \<and>
   calculateGeohashes example_encode (- 122.4194) 37.7749 (- 122.4194) 37.7749 5 = [''nw'']"
  using calculateGeohashes_point [of "37.7749" "- 122.4194" example_encode 5]
  by (simp add: example_encode_def)

section \<open>Properties of the map component\<close>

lemma fetchVessels_call_store:
  "vessels (fetchVessels_call st) = vessels st \<and>
   lastServerTime (fetchVessels_call st) = lastServerTime st"
  by (simp add: fetchVessels_call_def split: option.splits)

lemma polling_cleanup_store:
  "vessels (polling_cleanup st) = vessels st \<and>
   lastServerTime (polling_cleanup st) = lastServerTime st"
  by (simp add: polling_cleanup_def split: option.splits)

lemma polling_cleanup_view:
  "zoom (polling_cleanup st) = zoom st \<and> bbox (polling_cleanup st) = bbox st \<and>
   in_flight (polling_cleanup st) = in_flight st \<and>
   intervals_created (polling_cleanup st) = intervals_created st \<and>
   pollingIntervalRef (polling_cleanup st) = None"
  by (simp add: polling_cleanup_def split: option.splits)

lemma polling_cleanup_idem: "polling_cleanup (polling_cleanup st) = polling_cleanup st"
  by (simp add: polling_cleanup_def split: option.splits)

lemma polling_effect_store:
  "vessels (polling_effect st) = vessels st \<and>
   lastServerTime (polling_effect st) = lastServerTime st"
  by (simp add: polling_effect_def Let_def fetchVessels_call_store polling_cleanup_store)

lemma rerun_polling_effect_store:
  "vessels (rerun_polling_effect st) = vessels st \<and>
   lastServerTime (rerun_polling_effect st) = lastServerTime st"
  by (simp add: rerun_polling_effect_def polling_effect_store polling_cleanup_store)

lemma rerun_inactive:
  "zoom st < MIN_ZOOM_LEVEL \<or> bbox st = None \<Longrightarrow>
   rerun_polling_effect st = polling_cleanup st"
  by (auto simp: rerun_polling_effect_def polling_effect_def polling_cleanup_view
        polling_cleanup_idem)

lemma rerun_active:
  assumes "MIN_ZOOM_LEVEL \<le> zoom st" and "bbox st = Some bb"
  shows "rerun_polling_effect st =
     (polling_cleanup st)
       \<lparr>isLoading := True, error := None,
        in_flight := in_flight st @
          [\<lparr>req_bbox = bb, req_zoom = math_round (zoom st),
            req_since = since_argument (lastServerTime st)\<rparr>],
        pollingIntervalRef := Some (intervals_created st),
        live_intervals := live_intervals (polling_cleanup st) @ [intervals_created st],
        intervals_created := Suc (intervals_created st)\<rparr>"
  using assms
  by (simp add: rerun_polling_effect_def polling_effect_def fetchVessels_call_def Let_def
        polling_cleanup_view polling_cleanup_store)

lemma fetchVessels_resolved_store:
  "lastServerTime (fetchVessels_resolved r st) = Some (server_time r) \<and>
   vessels (fetchVessels_resolved r st) =
     (if response_vessels r = [] then vessels st
      else updateMultipleVessels (response_vessels r) (vessels st))"
  by (simp add: fetchVessels_resolved_def Let_def)


lemma handleRegionDidChange_zoomed_in:
  "MIN_ZOOM_LEVEL \<le> z \<Longrightarrow>
   handleRegionDidChange (Some b) (Some z) st =
     Some (st\<lparr>zoom := z,
        bbox := Some \<lparr>minLon = fst (fst b), minLat = snd (fst b),
                      maxLon = fst (snd b), maxLat = snd (snd b)\<rparr>\<rparr>)"
  by (simp add: handleRegionDidChange_def Let_def MIN_ZOOM_LEVEL_def)


lemma step_zoomed_in:
  assumes "MIN_ZOOM_LEVEL \<le> z"
  shows "step getTime st (RegionDidChange (Some b) (Some z)) =
     rerun_polling_effect (st\<lparr>zoom := z,
        bbox := Some \<lparr>minLon = fst (fst b), minLat = snd (fst b),
                      maxLon = fst (snd b), maxLat = snd (snd b)\<rparr>\<rparr>)"
  using assms by (simp add: handleRegionDidChange_zoomed_in)


lemma first_region_change:
  "run example_getTime initial_state [RegionDidChange (Some viewport_V1) (Some 13)] =
     initial_state
       \<lparr>zoom := 13,
        bbox := Some \<lparr>minLon = - 122.5, minLat = 37.7, maxLon = - 122.3, maxLat = 37.8\<rparr>,
        isLoading := True, error := None, in_flight := [request_V1],
        pollingIntervalRef := Some 0, live_intervals := [0], intervals_created := 1\<rparr>"
proof -
  have m: "MIN_ZOOM_LEVEL \<le> 13"
    by (simp add: MIN_ZOOM_LEVEL_def)
  show ?thesis
    unfolding run_def
    by (simp del: step.simps add: step_zoomed_in [OF m] viewport_V1_def)
       (simp add: rerun_active [where bb = "\<lparr>minLon = - 122.5, minLat = 37.7, maxLon = - 122.3, maxLat = 37.8\<rparr>"]
          MIN_ZOOM_LEVEL_def initial_state_def polling_cleanup_def request_V1_def
          math_round_def since_argument_def)
qed

text \<open>
  Claim C4.  When a pending fetch resolves, the cursor \<open>lastServerTime\<close> becomes the
  response's \<open>server_time\<close>, whether or not the response carries vessels; the store is
  merged with the response's vessels when there are some and is left as it was when there
  are none.
\<close>

theorem fetch_success_advances_cursor:
  "i < length (in_flight st) \<Longrightarrow>
   lastServerTime (step getTime st (FetchResolved i r)) = Some (server_time r) \<and>
   vessels (step getTime st (FetchResolved i r)) =
     (if response_vessels r = [] then vessels st
      else updateMultipleVessels (response_vessels r) (vessels st))"
  by (simp add: Let_def rerun_polling_effect_store fetchVessels_resolved_store)

theorem fetch_success_advances_cursor_witness:
  "0 < length (in_flight (run example_getTime initial_state
                  [RegionDidChange (Some viewport_V1) (Some 13)])) \<and>
   lastServerTime (run example_getTime initial_state
      [RegionDidChange (Some viewport_V1) (Some 13), FetchResolved 0 empty_response]) =
     Some ''2024-01-01T00:00:30Z'' \<and>
   vessels (run example_getTime initial_state
      [RegionDidChange (Some viewport_V1) (Some 13), FetchResolved 0 empty_response]) = []"
proof -
  let ?st = "run example_getTime initial_state [RegionDidChange (Some viewport_V1) (Some 13)]"
  have h: "0 < length (in_flight ?st)" and v: "vessels ?st = []"
    unfolding first_region_change by (simp_all add: initial_state_def)
  have r: "run example_getTime initial_state
             [RegionDidChange (Some viewport_V1) (Some 13), FetchResolved 0 empty_response] =
           step example_getTime ?st (FetchResolved 0 empty_response)"
    by (simp add: run_def)
  show ?thesis
    unfolding r
    using h v fetch_success_advances_cursor [OF h, of example_getTime empty_response]
    by (simp del: step.simps add: empty_response_def)
qed

text \<open>
  Claim C5.  When a pending fetch rejects, the store and the cursor are what they were
  and \<open>error\<close> holds the message the status line shows.  Issuing the fetch did not
  touch the store or the cursor either.
\<close>

theorem fetch_failure_keeps_store:
  "i < length (in_flight st) \<Longrightarrow>
   vessels (step getTime st (FetchRejected i)) = vessels st \<and>
   lastServerTime (step getTime st (FetchRejected i)) = lastServerTime st \<and>
   error (step getTime st (FetchRejected i)) = Some ''Failed to fetch vessels'' \<and>
   vessels (fetchVessels_call st) = vessels st \<and>
   lastServerTime (fetchVessels_call st) = lastServerTime st"
  by (simp add: fetchVessels_rejected_def fetchVessels_call_store)

theorem fetch_failure_keeps_store_witness:
  "0 < length (in_flight (run example_getTime initial_state
                  [RegionDidChange (Some viewport_V1) (Some 13)])) \<and>
   vessels (run example_getTime initial_state
      [RegionDidChange (Some viewport_V1) (Some 13), FetchRejected 0]) = [] \<and>
   lastServerTime (run example_getTime initial_state
      [RegionDidChange (Some viewport_V1) (Some 13), FetchRejected 0]) = None \<and>
   error (run example_getTime initial_state
      [RegionDidChange (Some viewport_V1) (Some 13), FetchRejected 0]) =
     Some ''Failed to fetch vessels''"
proof -
  let ?st = "run example_getTime initial_state [RegionDidChange (Some viewport_V1) (Some 13)]"
  have h: "0 < length (in_flight ?st)" and v: "vessels ?st = []" "lastServerTime ?st = None"
    unfolding first_region_change by (simp_all add: initial_state_def)
  have r: "run example_getTime initial_state
             [RegionDidChange (Some viewport_V1) (Some 13), FetchRejected 0] =
           step example_getTime ?st (FetchRejected 0)"
    by (simp add: run_def)
  show ?thesis
    unfolding r
    using h v fetch_failure_keeps_store [OF h, of example_getTime]
    by (simp del: step.simps)
qed

text \<open>
  A reported zoom of 0 is falsy: \<open>if (!bounds || !currentZoom) return;\<close> leaves the
  handler before it sets any state, so nothing is reset at zoom 0.
\<close>

lemma region_change_zoom_zero:
  "step getTime st (RegionDidChange bounds (Some 0)) = st \<and>
   region_change_unbatched bounds (Some 0) st = st"
  by (simp add: handleRegionDidChange_def region_change_unbatched_def split: option.splits)

text \<open>
  Without batching, a region change to a non-zero zoom below \<open>MIN_ZOOM_LEVEL\<close> ends
  in the same store, cursor, ref and pending requests as with batching.
\<close>

lemma region_change_unbatched_zoomed_out:
  assumes "z \<noteq> 0" and "z < MIN_ZOOM_LEVEL"
  shows "vessels (region_change_unbatched (Some b) (Some z) st) = [] \<and>
         lastServerTime (region_change_unbatched (Some b) (Some z) st) = None \<and>
         pollingIntervalRef (region_change_unbatched (Some b) (Some z) st) = None \<and>
         in_flight (region_change_unbatched (Some b) (Some z) st) = in_flight st"
  using assms
  by (simp add: region_change_unbatched_def Let_def rerun_inactive polling_cleanup_view
        polling_cleanup_store)




text \<open>
  Every step keeps the ref and the runtime in agreement, so they agree in every state the
  component reaches, with or without batching of the region change.
\<close>

lemma timer_ok_cleanup: "timer_ok st \<Longrightarrow> timer_ok (polling_cleanup st)"
  by (simp add: timer_ok_def polling_cleanup_def split: option.splits)

lemma fetchVessels_call_timer:
  "pollingIntervalRef (fetchVessels_call st) = pollingIntervalRef st \<and>
   intervals_created (fetchVessels_call st) = intervals_created st \<and>
   live_intervals (fetchVessels_call st) = live_intervals st"
  by (simp add: fetchVessels_call_def split: option.splits)

lemma timer_ok_same_timer:
  "pollingIntervalRef st' = pollingIntervalRef st \<Longrightarrow>
   intervals_created st' = intervals_created st \<Longrightarrow>
   live_intervals st' = live_intervals st \<Longrightarrow>
   timer_ok st \<Longrightarrow> timer_ok st'"
  by (simp add: timer_ok_def split: option.splits)

lemma timer_ok_rerun: "timer_ok st \<Longrightarrow> timer_ok (rerun_polling_effect st)"
proof -
  assume "timer_ok st"
  then have c: "timer_ok (polling_cleanup st)"
    by (rule timer_ok_cleanup)
  have n: "pollingIntervalRef (polling_cleanup st) = None"
    by (simp add: polling_cleanup_view)
  from c n have l: "live_intervals (polling_cleanup st) = []"
    by (simp add: timer_ok_def)
  show ?thesis
    using n l
    by (simp add: rerun_polling_effect_def polling_effect_def Let_def polling_cleanup_idem
          timer_ok_def fetchVessels_call_timer)
qed

lemma timer_ok_step: "timer_ok st \<Longrightarrow> timer_ok (step getTime st e)"
proof (cases e)
  case (RegionDidChange bounds z)
  assume a: "timer_ok st"
  show ?thesis
  proof (cases "handleRegionDidChange bounds z st")
    case None
    then show ?thesis using a by (simp add: RegionDidChange)
  next
    case (Some st')
    have "timer_ok st'"
      using a Some
      by (auto simp: handleRegionDidChange_def Let_def clearAll_def timer_ok_def
            split: option.splits if_splits)
    then show ?thesis
      by (simp add: RegionDidChange Some timer_ok_rerun)
  qed
next
  case (IntervalTick now)
  assume a: "timer_ok st"
  then have "timer_ok (interval_callback getTime now st)"
    by (rule timer_ok_same_timer [rotated 3])
       (simp_all add: interval_callback_def Let_def fetchVessels_call_timer)
  then show ?thesis
    using a by (simp add: IntervalTick)
next
  case (FetchResolved i r)
  assume a: "timer_ok st"
  then have "timer_ok
      (fetchVessels_resolved r (st\<lparr>in_flight := remove_nth i (in_flight st)\<rparr>))"
    by (rule timer_ok_same_timer [rotated 3])
       (simp_all add: fetchVessels_resolved_def Let_def)
  then show ?thesis
    using a by (simp add: FetchResolved Let_def timer_ok_rerun)
next
  case (FetchRejected i)
  assume a: "timer_ok st"
  then have "timer_ok (fetchVessels_rejected (st\<lparr>in_flight := remove_nth i (in_flight st)\<rparr>))"
    by (rule timer_ok_same_timer [rotated 3]) (simp_all add: fetchVessels_rejected_def)
  then show ?thesis
    using a by (simp add: FetchRejected)
qed

lemma timer_ok_foldl: "timer_ok st \<Longrightarrow> timer_ok (foldl (step getTime) st events)"
  by (induction events arbitrary: st) (simp_all add: timer_ok_step)

lemma timer_ok_run: "timer_ok (run getTime initial_state events)"
  unfolding run_def
  by (rule timer_ok_foldl) (simp add: timer_ok_def initial_state_def)

lemma timer_ok_region_change_unbatched:
  "timer_ok st \<Longrightarrow> timer_ok (region_change_unbatched bounds z st)"
proof -
  assume a: "timer_ok st"
  have u: "\<And>s f. timer_ok s \<Longrightarrow> pollingIntervalRef (f s) = pollingIntervalRef s \<Longrightarrow>
      intervals_created (f s) = intervals_created s \<Longrightarrow>
      live_intervals (f s) = live_intervals s \<Longrightarrow> timer_ok (f s)"
    by (rule timer_ok_same_timer)
  show ?thesis
    using a
    by (auto simp: region_change_unbatched_def Let_def split: option.splits
          intro!: timer_ok_rerun u [where f = "\<lambda>s. s\<lparr>bbox := _\<rparr>"]
            u [where f = "\<lambda>s. s\<lparr>zoom := _\<rparr>"] u [where f = "\<lambda>s. s\<lparr>lastServerTime := _\<rparr>"]
            u [where f = "\<lambda>s. s\<lparr>vessels := _\<rparr>"])
qed

lemma restart_after_rerun:
  assumes "MIN_ZOOM_LEVEL \<le> zoom s" and "bbox s = Some nb"
    and "pollingIntervalRef s = Some k" and "live_intervals s = [k]"
  shows "rerun_polling_effect s =
     s\<lparr>live_intervals := [intervals_created s], pollingIntervalRef := Some (intervals_created s),
       isLoading := True, error := None,
       in_flight := in_flight s @
          [\<lparr>req_bbox = nb, req_zoom = math_round (zoom s),
            req_since = since_argument (lastServerTime s)\<rparr>],
       intervals_created := Suc (intervals_created s)\<rparr>"
  using assms
  by (simp add: rerun_active [OF assms(1,2)] polling_cleanup_def)

text \<open>
  Claim C6, as the code has it.  Take a state with the polling active: the viewport is
  known, the zoom is at or above \<open>MIN_ZOOM_LEVEL\<close>, and the interval \<open>h\<close>, created
  earlier, is the one running and the one in the ref.  A region change to a zoom at or
  above \<open>MIN_ZOOM_LEVEL\<close> sets the new bounding box and zoom and leaves the store and
  the cursor as they were; but the polling is restarted: the interval \<open>h\<close> is cleared,
  a fetch for the new bounding box with the existing cursor is sent, and a new interval is
  the one running afterwards.  This holds when React renders the handler's updates
  together and when it renders them one by one.
\<close>

theorem region_change_restarts_polling:
  assumes "MIN_ZOOM_LEVEL \<le> zoom st" and "bbox st \<noteq> None"
    and "pollingIntervalRef st = Some h" and "live_intervals st = [h]"
    and "h < intervals_created st"
    and "MIN_ZOOM_LEVEL \<le> z"
  shows "let newBbox = \<lparr>minLon = fst (fst b), minLat = snd (fst b),
                        maxLon = fst (snd b), maxLat = snd (snd b)\<rparr>
         in polling_restarted st h newBbox z
              (step getTime st (RegionDidChange (Some b) (Some z))) \<and>
            polling_restarted st h newBbox z
              (region_change_unbatched (Some b) (Some z) st)"
proof -
  define nb where "nb = \<lparr>minLon = fst (fst b), minLat = snd (fst b),
                         maxLon = fst (snd b), maxLat = snd (snd b)\<rparr>"
  obtain bb where bb: "bbox st = Some bb"
    using assms(2) by auto
  have z0: "z \<noteq> 0" and zin: "\<not> z < MIN_ZOOM_LEVEL"
    using assms(6) by (simp_all add: MIN_ZOOM_LEVEL_def)
  let ?s = "st\<lparr>zoom := z, bbox := Some nb\<rparr>"
  have once: "rerun_polling_effect ?s =
     ?s\<lparr>live_intervals := [intervals_created st],
        pollingIntervalRef := Some (intervals_created st),
        isLoading := True, error := None,
        in_flight := in_flight st @
          [\<lparr>req_bbox = nb, req_zoom = math_round z,
            req_since = since_argument (lastServerTime st)\<rparr>],
        intervals_created := Suc (intervals_created st)\<rparr>"
    using restart_after_rerun [of ?s nb h] assms(3,4,6) by simp
  have batched: "polling_restarted st h nb z
      (step getTime st (RegionDidChange (Some b) (Some z)))"
    unfolding step_zoomed_in [OF assms(6)] nb_def [symmetric] once
    using assms(5) by (simp add: polling_restarted_def)
  have unbatched: "polling_restarted st h nb z
      (region_change_unbatched (Some b) (Some z) st)"
  proof (cases "z = zoom st")
    case True
    have "region_change_unbatched (Some b) (Some z) st = rerun_polling_effect ?s"
      using z0 zin True by (simp add: region_change_unbatched_def Let_def nb_def)
    then show ?thesis
      unfolding once using assms(5) by (simp add: polling_restarted_def)
  next
    case False
    define s1 where "s1 = st\<lparr>zoom := z\<rparr>"
    define t1 where "t1 =
       s1\<lparr>live_intervals := [intervals_created st],
          pollingIntervalRef := Some (intervals_created st),
          isLoading := True, error := None,
          in_flight := in_flight st @
            [\<lparr>req_bbox = bb, req_zoom = math_round z,
              req_since = since_argument (lastServerTime st)\<rparr>],
          intervals_created := Suc (intervals_created st)\<rparr>"
    define s2 where "s2 = t1\<lparr>bbox := Some nb\<rparr>"
    have first: "rerun_polling_effect s1 = t1"
      using restart_after_rerun [of s1 bb h] assms(3,4,6) bb
      by (simp add: s1_def t1_def)
    have second: "rerun_polling_effect s2 =
       s2\<lparr>live_intervals := [Suc (intervals_created st)],
          pollingIntervalRef := Some (Suc (intervals_created st)),
          isLoading := True, error := None,
          in_flight := in_flight s2 @
            [\<lparr>req_bbox = nb, req_zoom = math_round z,
              req_since = since_argument (lastServerTime st)\<rparr>],
          intervals_created := Suc (Suc (intervals_created st))\<rparr>"
      using restart_after_rerun [of s2 nb "intervals_created st"] assms(6)
      by (simp add: s2_def t1_def s1_def)
    have "region_change_unbatched (Some b) (Some z) st =
            rerun_polling_effect ((rerun_polling_effect s1)\<lparr>bbox := Some nb\<rparr>)"
      using z0 zin False by (simp add: region_change_unbatched_def Let_def nb_def s1_def)
    then have "region_change_unbatched (Some b) (Some z) st = rerun_polling_effect s2"
      by (simp add: first s2_def)
    then show ?thesis
      unfolding second using assms(5)
      by (simp add: polling_restarted_def s2_def t1_def s1_def)
  qed
  show ?thesis
    unfolding Let_def nb_def [symmetric] using batched unbatched by simp
qed

theorem region_change_restarts_polling_witness:
  "(MIN_ZOOM_LEVEL \<le> zoom (run example_getTime initial_state
                             [RegionDidChange (Some viewport_V1) (Some 13)]) \<and>
    bbox (run example_getTime initial_state
            [RegionDidChange (Some viewport_V1) (Some 13)]) \<noteq> None \<and>
    pollingIntervalRef (run example_getTime initial_state
            [RegionDidChange (Some viewport_V1) (Some 13)]) = Some 0 \<and>
    live_intervals (run example_getTime initial_state
            [RegionDidChange (Some viewport_V1) (Some 13)]) = [0] \<and>
    0 < intervals_created (run example_getTime initial_state
            [RegionDidChange (Some viewport_V1) (Some 13)]) \<and>
    MIN_ZOOM_LEVEL \<le> 14) \<and>
   polling_restarted
     (run example_getTime initial_state [RegionDidChange (Some viewport_V1) (Some 13)]) 0
     \<lparr>minLon = - 123, minLat = 37, maxLon = - 122, maxLat = 38\<rparr> 14
     (step example_getTime
        (run example_getTime initial_state [RegionDidChange (Some viewport_V1) (Some 13)])
        (RegionDidChange (Some viewport_V2) (Some 14))) \<and>
   polling_restarted
     (run example_getTime initial_state [RegionDidChange (Some viewport_V1) (Some 13)]) 0
     \<lparr>minLon = - 123, minLat = 37, maxLon = - 122, maxLat = 38\<rparr> 14
     (region_change_unbatched (Some viewport_V2) (Some 14)
        (run example_getTime initial_state [RegionDidChange (Some viewport_V1) (Some 13)]))"
proof -
  let ?st = "run example_getTime initial_state [RegionDidChange (Some viewport_V1) (Some 13)]"
  have a: "MIN_ZOOM_LEVEL \<le> zoom ?st" "bbox ?st \<noteq> None" "pollingIntervalRef ?st = Some 0"
    "live_intervals ?st = [0]" "0 < intervals_created ?st"
    unfolding first_region_change by (simp_all add: MIN_ZOOM_LEVEL_def)
  have m: "MIN_ZOOM_LEVEL \<le> 14"
    by (simp add: MIN_ZOOM_LEVEL_def)
  have v: "\<lparr>minLon = fst (fst viewport_V2), minLat = snd (fst viewport_V2),
            maxLon = fst (snd viewport_V2), maxLat = snd (snd viewport_V2)\<rparr> =
           \<lparr>minLon = - 123, minLat = 37, maxLon = - 122, maxLat = 38\<rparr>"
    by (simp add: viewport_V2_def)
  show ?thesis
    using a m region_change_restarts_polling [OF a m, where getTime = example_getTime and b = viewport_V2]
    unfolding Let_def v by (simp del: step.simps)
qed

text \<open>
  Claim C6 as it is written fails.  After the first region change, at zoom 13, the
  component is active with the interval of handle 0, the same state with and without
  batching.  After a second region change, to zoom 14, it is still active, and interval 0
  is no longer live: with batching \<open>setInterval\<close> has been called a second time and the
  running interval is handle 1; without batching the effect ran after \<open>setZoom\<close> and
  again after \<open>setBbox\<close>, \<open>setInterval\<close> has been called three times and the running
  interval is handle 2.
\<close>

theorem timer_restart_counterexample:
  "region_change_unbatched (Some viewport_V1) (Some 13) initial_state =
     run example_getTime initial_state [RegionDidChange (Some viewport_V1) (Some 13)] \<and>
   MIN_ZOOM_LEVEL \<le> zoom (run example_getTime initial_state
      [RegionDidChange (Some viewport_V1) (Some 13)]) \<and>
   pollingIntervalRef (run example_getTime initial_state
      [RegionDidChange (Some viewport_V1) (Some 13)]) = Some 0 \<and>
   live_intervals (run example_getTime initial_state
      [RegionDidChange (Some viewport_V1) (Some 13)]) = [0] \<and>
   MIN_ZOOM_LEVEL \<le> zoom (run example_getTime initial_state
      [RegionDidChange (Some viewport_V1) (Some 13),
       RegionDidChange (Some viewport_V2) (Some 14)]) \<and>
   pollingIntervalRef (run example_getTime initial_state
      [RegionDidChange (Some viewport_V1) (Some 13),
       RegionDidChange (Some viewport_V2) (Some 14)]) = Some 1 \<and>
   live_intervals (run example_getTime initial_state
      [RegionDidChange (Some viewport_V1) (Some 13),
       RegionDidChange (Some viewport_V2) (Some 14)]) = [1] \<and>
   intervals_created (run example_getTime initial_state
      [RegionDidChange (Some viewport_V1) (Some 13),
       RegionDidChange (Some viewport_V2) (Some 14)]) = 2 \<and>
   MIN_ZOOM_LEVEL \<le> zoom (region_change_unbatched (Some viewport_V2) (Some 14)
      (run example_getTime initial_state [RegionDidChange (Some viewport_V1) (Some 13)])) \<and>
   pollingIntervalRef (region_change_unbatched (Some viewport_V2) (Some 14)
      (run example_getTime initial_state [RegionDidChange (Some viewport_V1) (Some 13)])) =
     Some 2 \<and>
   live_intervals (region_change_unbatched (Some viewport_V2) (Some 14)
      (run example_getTime initial_state [RegionDidChange (Some viewport_V1) (Some 13)])) =
     [2] \<and>
   intervals_created (region_change_unbatched (Some viewport_V2) (Some 14)
      (run example_getTime initial_state [RegionDidChange (Some viewport_V1) (Some 13)])) = 3"
  by (simp add: run_def region_change_unbatched_def initial_state_def handleRegionDidChange_def
        rerun_polling_effect_def polling_effect_def polling_cleanup_def fetchVessels_call_def
        MIN_ZOOM_LEVEL_def DEFAULT_MAP_ZOOM_def Let_def viewport_V1_def viewport_V2_def
        math_round_def since_argument_def)

end
